theory Spec2Isabelle
  imports Main "HOL-Library.Sublist"
begin

section \<open>Storage-policy keywords and the session-token test of neofs-testcases\<close>

text \<open>
  The development embeds \<^verbatim>\<open>robot/resources/lib/python_keywords/storage_policy.py\<close>
  (the copy-verification scans) and the container set-up of
  \<^verbatim>\<open>pytest_tests/testsuites/session_token/test_object_session_token.py\<close>.
  Strings are lists of code points below 256, Python integers are \<open>int\<close>, a raised exception is
  the left injection of a sum.
\<close>

subsection \<open>Python values and exceptions\<close>

text \<open>
  What \<^verbatim>\<open>neofs_verbs.head_object\<close> hands back is only ever inspected by two tests in
  the scans: \<^verbatim>\<open>res is None\<close> and the truth value \<^verbatim>\<open>if response:\<close>. A response is
  therefore \<^verbatim>\<open>None\<close> or a decoded header, a dictionary that Python takes for true
  exactly when it has an entry.
\<close>

datatype py_value = PyNone | PyDict "(string \<times> string) list"

fun is_None :: "py_value \<Rightarrow> bool" where
  "is_None PyNone = True"
| "is_None (PyDict _) = False"

fun truthy :: "py_value \<Rightarrow> bool" where
  "truthy PyNone = False"
| "truthy (PyDict kvs) = (kvs \<noteq> [])"

text \<open>
  Every constructor is a subclass of Python's \<^verbatim>\<open>Exception\<close>, so a handler
  \<^verbatim>\<open>except Exception\<close> catches each of them. \<open>str_exc\<close> is \<^verbatim>\<open>str(err)\<close>, the
  message an exception was built with.
\<close>

datatype py_exception =
    Exception string
  | RuntimeError string
  | AssertionError string
  | IndexError string

fun str_exc :: "py_exception \<Rightarrow> string" where
  "str_exc (Exception m) = m"
| "str_exc (RuntimeError m) = m"
| "str_exc (AssertionError m) = m"
| "str_exc (IndexError m) = m"

subsection \<open>The environment of the keywords\<close>

text \<open>
  One call \<^verbatim>\<open>neofs_verbs.head_object(wallet, cid, oid, shell=shell, endpoint=node,
  is_direct=...)\<close>. The shell is the executor that carries the command; what it brings
  back is the outcome the environment gives for the call.
\<close>

datatype probe = Head (p_wallet: string) (p_cid: string) (p_oid: string)
  (p_endpoint: string) (p_is_direct: bool)

datatype 'a outcome = Returned 'a | Raised py_exception

text \<open>
  The names the module imports and this repository defines elsewhere are the fields of
  the environment: the node list \<^verbatim>\<open>common.NEOFS_NETMAP\<close>, the verb
  \<^verbatim>\<open>neofs_verbs.head_object\<close>, \<^verbatim>\<open>complex_object_actions.get_last_object\<close>, and
  \<^verbatim>\<open>grpc_responses.OBJECT_NOT_FOUND\<close> with \<^verbatim>\<open>error_matches_status\<close>. The outcome of a
  probe is a function of its arguments: the network is observed at one moment.
\<close>

record env =
  NEOFS_NETMAP :: "string list"
  head_object :: "probe \<Rightarrow> py_value outcome"
  get_last_object :: "string \<Rightarrow> string \<Rightarrow> string \<Rightarrow> string option outcome"
  OBJECT_NOT_FOUND :: string
  error_matches_status :: "py_exception \<Rightarrow> string \<Rightarrow> bool"

subsection \<open>The scans of \<^verbatim>\<open>storage_policy.py\<close>\<close>

text \<open>
  Each scan returns the probes it issued, in order, and its result: \<open>Inr\<close> the value
  returned, \<open>Inl\<close> the exception that left the function.
\<close>

type_synonym 'a scan = "probe list \<times> (py_exception + 'a)"

text \<open>The loop of \<^verbatim>\<open>get_simple_object_copies\<close>, over the nodes still to visit.\<close>

fun simple_copies_loop ::
  "env \<Rightarrow> string \<Rightarrow> string \<Rightarrow> string \<Rightarrow> string list \<Rightarrow> probe list \<Rightarrow> int \<Rightarrow> probe list \<times> int" where
  "simple_copies_loop E wallet cid oid [] issued copies = (issued, copies)"
| "simple_copies_loop E wallet cid oid (node # rest) issued copies =
     (let call = Head wallet cid oid node True in
      case head_object E call of
        Returned response \<Rightarrow>
          if truthy response
          then simple_copies_loop E wallet cid oid rest (issued @ [call]) (copies + 1)
          else simple_copies_loop E wallet cid oid rest (issued @ [call]) copies
      | Raised err \<Rightarrow> simple_copies_loop E wallet cid oid rest (issued @ [call]) copies)"

definition get_simple_object_copies :: "env \<Rightarrow> string \<Rightarrow> string \<Rightarrow> string \<Rightarrow> int scan" where
  "get_simple_object_copies E wallet cid oid =
     (case simple_copies_loop E wallet cid oid (NEOFS_NETMAP E) [] 0 of
        (issued, copies) \<Rightarrow> (issued, Inr copies))"

text \<open>
  \<^verbatim>\<open>get_complex_object_copies\<close>: an exception of \<^verbatim>\<open>get_last_object\<close> passes through,
  the \<^verbatim>\<open>assert last_oid\<close> (assertions enabled, as under pytest) fails on \<^verbatim>\<open>None\<close> and
  on the empty string.
\<close>

definition get_complex_object_copies :: "env \<Rightarrow> string \<Rightarrow> string \<Rightarrow> string \<Rightarrow> int scan" where
  "get_complex_object_copies E wallet cid oid =
     (case get_last_object E wallet cid oid of
        Raised err \<Rightarrow> ([], Inl err)
      | Returned last_oid \<Rightarrow>
          (case last_oid of
             None \<Rightarrow> ([], Inl (AssertionError
               (''No Last Object for '' @ cid @ ''/'' @ oid @ '' found among all Storage Nodes'')))
           | Some l \<Rightarrow>
               if l = [] then ([], Inl (AssertionError
                 (''No Last Object for '' @ cid @ ''/'' @ oid @ '' found among all Storage Nodes'')))
               else get_simple_object_copies E wallet cid l))"

definition get_object_copies :: "env \<Rightarrow> string \<Rightarrow> string \<Rightarrow> string \<Rightarrow> string \<Rightarrow> int scan" where
  "get_object_copies E complexity wallet cid oid =
     (if complexity = ''Simple'' then get_simple_object_copies E wallet cid oid
      else get_complex_object_copies E wallet cid oid)"

text \<open>
  \<^verbatim>\<open>get_nodes_with_object\<close>: \<^verbatim>\<open>if skip_nodes:\<close> is false for \<^verbatim>\<open>None\<close> and for the empty
  list, and only then is the whole map searched.
\<close>

definition nodes_to_search :: "env \<Rightarrow> string list option \<Rightarrow> string list" where
  "nodes_to_search E skip_nodes =
     (case skip_nodes of
        None \<Rightarrow> NEOFS_NETMAP E
      | Some skip \<Rightarrow>
          if skip = [] then NEOFS_NETMAP E
          else filter (\<lambda>node. node \<notin> set skip) (NEOFS_NETMAP E))"

fun nodes_with_loop ::
  "env \<Rightarrow> string \<Rightarrow> string \<Rightarrow> string \<Rightarrow> string list \<Rightarrow> probe list \<Rightarrow> string list
     \<Rightarrow> probe list \<times> string list" where
  "nodes_with_loop E wallet cid oid [] issued nodes_list = (issued, nodes_list)"
| "nodes_with_loop E wallet cid oid (node # rest) issued nodes_list =
     (let call = Head wallet cid oid node True in
      case head_object E call of
        Returned res \<Rightarrow>
          if \<not> is_None res
          then nodes_with_loop E wallet cid oid rest (issued @ [call]) (nodes_list @ [node])
          else nodes_with_loop E wallet cid oid rest (issued @ [call]) nodes_list
      | Raised err \<Rightarrow> nodes_with_loop E wallet cid oid rest (issued @ [call]) nodes_list)"

definition get_nodes_with_object ::
  "env \<Rightarrow> string \<Rightarrow> string \<Rightarrow> string \<Rightarrow> string list option \<Rightarrow> string list scan" where
  "get_nodes_with_object E wallet cid oid skip_nodes =
     (case nodes_with_loop E wallet cid oid (nodes_to_search E skip_nodes) [] [] of
        (issued, nodes_list) \<Rightarrow> (issued, Inr nodes_list))"

text \<open>
  \<^verbatim>\<open>get_nodes_without_object\<close>: the handler keeps the node when the error matches
  \<^verbatim>\<open>OBJECT_NOT_FOUND\<close> and raises a new \<^verbatim>\<open>Exception\<close> otherwise, which ends the loop.
\<close>

fun nodes_without_loop ::
  "env \<Rightarrow> string \<Rightarrow> string \<Rightarrow> string \<Rightarrow> string list \<Rightarrow> probe list \<Rightarrow> string list
     \<Rightarrow> string list scan" where
  "nodes_without_loop E wallet cid oid [] issued nodes_list = (issued, Inr nodes_list)"
| "nodes_without_loop E wallet cid oid (node # rest) issued nodes_list =
     (let call = Head wallet cid oid node True in
      case head_object E call of
        Returned res \<Rightarrow>
          if is_None res
          then nodes_without_loop E wallet cid oid rest (issued @ [call]) (nodes_list @ [node])
          else nodes_without_loop E wallet cid oid rest (issued @ [call]) nodes_list
      | Raised err \<Rightarrow>
          if error_matches_status E err (OBJECT_NOT_FOUND E)
          then nodes_without_loop E wallet cid oid rest (issued @ [call]) (nodes_list @ [node])
          else (issued @ [call],
                Inl (Exception (''Got error '' @ str_exc err @ '' on head object command''))))"

definition get_nodes_without_object ::
  "env \<Rightarrow> string \<Rightarrow> string \<Rightarrow> string \<Rightarrow> string list scan" where
  "get_nodes_without_object E wallet cid oid =
     nodes_without_loop E wallet cid oid (NEOFS_NETMAP E) [] []"

subsection \<open>The container set-up of \<^verbatim>\<open>test_object_session_token\<close>\<close>

text \<open>
  \<^verbatim>\<open>str.isspace\<close> on the code points below 256: the controls 9 to 13 and 28 to 31, the
  space, NEL (133) and the no-break space (160).
\<close>

definition isspace :: "char \<Rightarrow> bool" where
  "isspace c =
     (let n = (of_char c :: nat)
      in (9 \<le> n \<and> n \<le> 13) \<or> (28 \<le> n \<and> n \<le> 32) \<or> n = 133 \<or> n = 160)"

text \<open>
  \<^verbatim>\<open>str.split()\<close> without a separator: skip the whitespace, stop at the end of the
  string, else take the next character and all that follow up to the next whitespace.
\<close>

function split_ws :: "string \<Rightarrow> string list" where
  "split_ws s =
     (case dropWhile isspace s of
        [] \<Rightarrow> []
      | c # cs \<Rightarrow>
          (c # takeWhile (\<lambda>x. \<not> isspace x) cs) # split_ws (dropWhile (\<lambda>x. \<not> isspace x) cs))"
  by pat_completeness auto
termination
proof (relation "measure length", goal_cases)
  case 1
  show ?case by simp
next
  case (2 s c cs)
  have "length (dropWhile (\<lambda>x. \<not> isspace x) cs) \<le> length cs"
    by (rule length_dropWhile_le)
  moreover have "length (dropWhile isspace s) \<le> length s"
    by (rule length_dropWhile_le)
  ultimately show ?case using 2 by simp
qed

declare split_ws.simps [simp del]

text \<open>\<^verbatim>\<open>tokens[1]\<close>: the second element, or \<^verbatim>\<open>IndexError\<close> when there are fewer than two.\<close>

fun index_1 :: "string list \<Rightarrow> py_exception + string" where
  "index_1 (t0 # t1 # rest) = Inr t1"
| "index_1 tokens = Inl (IndexError ''list index out of range'')"

text \<open>
  \<^verbatim>\<open>locode = "SPB" if un_locode == "RU LED" else un_locode.split()[1]\<close>
\<close>

definition locode_of :: "string \<Rightarrow> py_exception + string" where
  "locode_of un_locode =
     (if un_locode = ''RU LED'' then Inr ''SPB'' else index_1 (split_ws un_locode))"

text \<open>The three adjacent f-string literals of \<^verbatim>\<open>placement_policy\<close>, in their order.\<close>

definition placement_policy :: "string \<Rightarrow> string \<Rightarrow> string" where
  "placement_policy locode un_locode =
     (''REP 1 IN LOC_'' @ locode @ ''_PLACE CBF 1 SELECT 1 FROM LOC_'' @ locode @ '' '')
     @ (''AS LOC_'' @ locode @ ''_PLACE FILTER '' @ [CHR 0x22] @ ''UN-LOCODE'' @ [CHR 0x22] @ '' '')
     @ (''EQ '' @ [CHR 0x22] @ un_locode @ [CHR 0x22] @ '' AS LOC_'' @ locode)"

text \<open>The \<^verbatim>\<open>rule\<close> argument of \<^verbatim>\<open>create_container\<close>, from the node's UN-LOCODE attribute.\<close>

definition container_rule :: "string \<Rightarrow> py_exception + string" where
  "container_rule un_locode =
     (case locode_of un_locode of
        Inl err \<Rightarrow> Inl err
      | Inr locode \<Rightarrow> Inr (placement_policy locode un_locode))"

text \<open>
  The grammar of the policy text as the specification words it:
  \<^verbatim>\<open>REP <n> IN <group> CBF <m> SELECT <k> FROM <group> AS <group> FILTER "<attr>" EQ
  "<value>" AS <group>\<close>, one space between neighbours, the attribute and the value in
  double quotes.
\<close>

record policy_text =
  rep :: string
  rep_in :: string
  cbf :: string
  select :: string
  select_from :: string
  select_as :: string
  filter_attr :: string
  filter_value :: string
  filter_as :: string

definition spec_policy_grammar :: "policy_text \<Rightarrow> string" where
  "spec_policy_grammar p =
     concat [''REP '', rep p, '' IN '', rep_in p, '' CBF '', cbf p,
             '' SELECT '', select p, '' FROM '', select_from p, '' AS '', select_as p,
             '' FILTER '', [CHR 0x22], filter_attr p, [CHR 0x22],
             '' EQ '', [CHR 0x22], filter_value p, [CHR 0x22], '' AS '', filter_as p]"

subsection \<open>What one iteration of a scan decides for a node\<close>

text \<open>
  Read off the loop bodies: the direct probe of a node, and the four tests the scans
  apply to its outcome. \<open>counts_copy\<close> is the branch that increments \<^verbatim>\<open>copies\<close>,
  \<open>holds_copy\<close> the branch of \<^verbatim>\<open>get_nodes_with_object\<close> that appends, \<open>lacks_copy\<close> the
  two branches of \<^verbatim>\<open>get_nodes_without_object\<close> that append, and \<open>fatal_probe\<close> its branch
  that raises.
\<close>

definition direct_probe :: "string \<Rightarrow> string \<Rightarrow> string \<Rightarrow> string \<Rightarrow> probe" where
  "direct_probe wallet cid oid node = Head wallet cid oid node True"

definition counts_copy :: "env \<Rightarrow> string \<Rightarrow> string \<Rightarrow> string \<Rightarrow> string \<Rightarrow> bool" where
  "counts_copy E wallet cid oid node =
     (case head_object E (direct_probe wallet cid oid node) of
        Returned response \<Rightarrow> truthy response
      | Raised err \<Rightarrow> False)"

definition holds_copy :: "env \<Rightarrow> string \<Rightarrow> string \<Rightarrow> string \<Rightarrow> string \<Rightarrow> bool" where
  "holds_copy E wallet cid oid node =
     (case head_object E (direct_probe wallet cid oid node) of
        Returned res \<Rightarrow> \<not> is_None res
      | Raised err \<Rightarrow> False)"

definition lacks_copy :: "env \<Rightarrow> string \<Rightarrow> string \<Rightarrow> string \<Rightarrow> string \<Rightarrow> bool" where
  "lacks_copy E wallet cid oid node =
     (case head_object E (direct_probe wallet cid oid node) of
        Returned res \<Rightarrow> is_None res
      | Raised err \<Rightarrow> error_matches_status E err (OBJECT_NOT_FOUND E))"

definition fatal_probe :: "env \<Rightarrow> string \<Rightarrow> string \<Rightarrow> string \<Rightarrow> string \<Rightarrow> bool" where
  "fatal_probe E wallet cid oid node =
     (case head_object E (direct_probe wallet cid oid node) of
        Returned res \<Rightarrow> False
      | Raised err \<Rightarrow> \<not> error_matches_status E err (OBJECT_NOT_FOUND E))"

text \<open>The environment in which one probe has the given outcome and every other probe is as before.\<close>

definition with_outcome :: "env \<Rightarrow> probe \<Rightarrow> py_value outcome \<Rightarrow> env" where
  "with_outcome E p out = E\<lparr>head_object := (head_object E)(p := out)\<rparr>"

definition aborted :: "'a scan \<Rightarrow> bool" where
  "aborted r = (case snd r of Inl err \<Rightarrow> True | Inr v \<Rightarrow> False)"

subsection \<open>The session authorization guard\<close>

text \<open>
  The test creates a session token against one endpoint and presents it to
  \<^verbatim>\<open>put_object\<close> and \<^verbatim>\<open>delete_object\<close> at three endpoints. What the addressed node
  decides is the guard of the specification; its data are the operations, the denial
  reasons, the object address and the token with its identifier, validity window and
  authorized operations.
\<close>

datatype operation = PUT | DELETE | HEAD

datatype deny_reason = Expired | WrongOperation | SessionNotFound

datatype decision = Allow | Deny deny_reason

record ObjectAddress =
  container_id :: string
  object_id :: string

record SessionToken =
  token_id :: nat
  issuer :: string
  valid_from :: nat
  valid_until :: nat
  authorized_ops :: "operation list"

text \<open>
  The network as the guard meets it: which node has a record of which token identifier
  (node-local state keyed by the token identifier), and for each container id the
  placement set that its policy resolves to.
\<close>

record network =
  token_records :: "(string \<times> nat) list"
  placement :: "string \<Rightarrow> string list"

definition has_record :: "network \<Rightarrow> string \<Rightarrow> nat \<Rightarrow> bool" where
  "has_record net node tid = ((node, tid) \<in> set (token_records net))"

definition placement_target :: "network \<Rightarrow> ObjectAddress \<Rightarrow> string \<Rightarrow> bool" where
  "placement_target net object node = (node \<in> set (placement net (container_id object)))"

text \<open>
  Modelled from the spec: the decision that \<^verbatim>\<open>put_object\<close> and \<^verbatim>\<open>delete_object\<close> of
  \<^verbatim>\<open>python_keywords/neofs_verbs.py\<close> meet at the node they address is not among the
  sources; only the test that calls them is. The rules are those of the specification's
  Session Authorization Guard, in its order: \<^verbatim>\<open>Deny(Expired)\<close> when \<open>now\<close> is outside the
  validity window, \<^verbatim>\<open>Deny(WrongOperation)\<close> when the operation is not in the token's
  authorized set, \<^verbatim>\<open>Deny(SessionNotFound)\<close> when the node has no record of the token,
  otherwise \<^verbatim>\<open>Allow\<close>.
\<close>

definition Authorize ::
  "network \<Rightarrow> SessionToken \<Rightarrow> string \<Rightarrow> operation \<Rightarrow> ObjectAddress \<Rightarrow> nat \<Rightarrow> decision" where
  "Authorize net token node op object now =
     (if now < valid_from token \<or> valid_until token < now then Deny Expired
      else if op \<notin> set (authorized_ops token) then Deny WrongOperation
      else if \<not> has_record net node (token_id token) then Deny SessionNotFound
      else Allow)"

text \<open>An identifier above every identifier some node has on record.\<close>

definition fresh_token_id :: "network \<Rightarrow> nat" where
  "fresh_token_id net = Suc (fold max (map snd (token_records net)) 0)"

text \<open>
  Modelled from the spec: \<^verbatim>\<open>create_session_token\<close> of \<^verbatim>\<open>python_keywords/session_token.py\<close>
  is not among the sources. By the specification creation issues a new token for the
  owner and the token is known initially only to the node it was created against: the
  token gets a fresh identifier, and the one new record is at that node. The validity
  window and the authorized operations, which the specification's interface leaves
  open, are arguments. The result is the token and the network after the creation.
\<close>

definition CreateSessionToken ::
  "network \<Rightarrow> string \<Rightarrow> string \<Rightarrow> nat \<Rightarrow> nat \<Rightarrow> operation list \<Rightarrow> SessionToken \<times> network" where
  "CreateSessionToken net owner node from until ops =
     (let token = \<lparr> token_id = fresh_token_id net, issuer = owner, valid_from = from,
                     valid_until = until, authorized_ops = ops \<rparr>
      in (token, net\<lparr>token_records := (node, token_id token) # token_records net\<rparr>))"

subsection \<open>Concrete environments\<close>

text \<open>
  An environment from a table of endpoints and the outcome of probing each; an error
  matches a status when its message is that status.
\<close>

definition table_env :: "(string \<times> py_value outcome) list \<Rightarrow> env" where
  "table_env tbl =
     \<lparr> NEOFS_NETMAP = map fst tbl,
       head_object = (\<lambda>p. case map_of tbl (p_endpoint p) of
                             Some out \<Rightarrow> out
                           | None \<Rightarrow> Raised (RuntimeError ''unknown endpoint'')),
       get_last_object = (\<lambda>wallet cid oid.
                             if oid = ''big'' then Returned (Some ''last'')
                             else if oid = ''lost'' then Returned None
                             else if oid = ''blank'' then Returned (Some [])
                             else Raised (RuntimeError ''head failed'')),
       OBJECT_NOT_FOUND = ''object not found'',
       error_matches_status = (\<lambda>err status. str_exc err = status) \<rparr>"

definition env_clean :: env where
  "env_clean = table_env
     [(''s01'', Returned (PyDict [(''objectID'', ''last'')])),
      (''s02'', Returned PyNone),
      (''s03'', Raised (RuntimeError ''object not found'')),
      (''s04'', Returned (PyDict [(''objectID'', ''last'')]))]"

definition env_faulty :: env where
  "env_faulty = table_env
     [(''s01'', Returned (PyDict [(''objectID'', ''last'')])),
      (''s02'', Raised (RuntimeError ''connection refused'')),
      (''s03'', Returned PyNone),
      (''s04'', Returned PyNone)]"

definition env_empty_header :: env where
  "env_empty_header = table_env [(''s01'', Returned (PyDict []))]"

text \<open>
  A network in which the nodes \<^verbatim>\<open>B\<close> and \<^verbatim>\<open>C\<close> already have tokens on record, a
  placement that puts the container \<^verbatim>\<open>cid\<close> on one given node, and the token created
  against \<^verbatim>\<open>A\<close> in that network for the window 10 to 20 and the operations
  \<^verbatim>\<open>PUT\<close> and \<^verbatim>\<open>DELETE\<close>.
\<close>

definition placement_on :: "string \<Rightarrow> string \<Rightarrow> string list" where
  "placement_on node cid = (if cid = ''cid'' then [node] else [])"

definition net_before :: network where
  "net_before =
     \<lparr> token_records = [(''B'', 3), (''C'', 5), (''B'', 4)], placement = placement_on ''B'' \<rparr>"

definition token_for_A :: SessionToken where
  "token_for_A = fst (CreateSessionToken net_before ''owner'' ''A'' 10 20 [PUT, DELETE])"

definition net_after :: network where
  "net_after = snd (CreateSessionToken net_before ''owner'' ''A'' 10 20 [PUT, DELETE])"

definition some_object :: ObjectAddress where
  "some_object = \<lparr> container_id = ''cid'', object_id = ''oid'' \<rparr>"

section \<open>The loops in closed form\<close>

text \<open>
  Each loop visits its nodes from left to right, logs one direct probe per node and
  extends its accumulator by the nodes that pass its test. The loop of
  \<^verbatim>\<open>get_nodes_without_object\<close> stops at the first node whose probe is fatal.
\<close>

lemma simple_copies_loop_eq:
  "simple_copies_loop E w c oid ns issued k =
     (issued @ map (direct_probe w c oid) ns, k + int (length (filter (counts_copy E w c oid) ns)))"
  by (induction ns arbitrary: issued k)
     (auto simp: direct_probe_def counts_copy_def split: outcome.splits)

lemma nodes_with_loop_eq:
  "nodes_with_loop E w c oid ns issued acc =
     (issued @ map (direct_probe w c oid) ns, acc @ filter (holds_copy E w c oid) ns)"
  by (induction ns arbitrary: issued acc)
     (auto simp: direct_probe_def holds_copy_def split: outcome.splits)

lemma nodes_without_loop_clean:
  "\<forall>n\<in>set ns. \<not> fatal_probe E w c oid n \<Longrightarrow>
   nodes_without_loop E w c oid ns issued acc =
     (issued @ map (direct_probe w c oid) ns, Inr (acc @ filter (lacks_copy E w c oid) ns))"
  by (induction ns arbitrary: issued acc)
     (auto simp: direct_probe_def lacks_copy_def fatal_probe_def split: outcome.splits)

lemma nodes_without_loop_abort:
  "\<forall>n\<in>set pre. \<not> fatal_probe E w c oid n \<Longrightarrow>
   head_object E (direct_probe w c oid bad) = Raised err \<Longrightarrow>
   \<not> error_matches_status E err (OBJECT_NOT_FOUND E) \<Longrightarrow>
   nodes_without_loop E w c oid (pre @ bad # post) issued acc =
     (issued @ map (direct_probe w c oid) (pre @ [bad]),
      Inl (Exception (''Got error '' @ str_exc err @ '' on head object command'')))"
  by (induction pre arbitrary: issued acc)
     (auto simp: direct_probe_def lacks_copy_def fatal_probe_def Let_def split: outcome.splits)

lemma fatal_probe_error:
  "fatal_probe E w c oid n \<Longrightarrow>
   \<exists>err. head_object E (direct_probe w c oid n) = Raised err
      \<and> \<not> error_matches_status E err (OBJECT_NOT_FOUND E)"
  by (auto simp: fatal_probe_def split: outcome.splits)

lemma first_fatal:
  "\<exists>n\<in>set ns. fatal_probe E w c oid n \<Longrightarrow>
   \<exists>pre bad post. ns = pre @ bad # post \<and> fatal_probe E w c oid bad
      \<and> (\<forall>n\<in>set pre. \<not> fatal_probe E w c oid n)"
  using split_list_first_prop [of ns "fatal_probe E w c oid"] by blast

lemma nodes_without_loop_aborted:
  "aborted (nodes_without_loop E w c oid ns issued acc) = (\<exists>n\<in>set ns. fatal_probe E w c oid n)"
proof (cases "\<exists>n\<in>set ns. fatal_probe E w c oid n")
  case True
  then obtain pre bad post where ns: "ns = pre @ bad # post"
    and bad: "fatal_probe E w c oid bad"
    and pre: "\<forall>n\<in>set pre. \<not> fatal_probe E w c oid n"
    using first_fatal by blast
  from bad obtain err where "head_object E (direct_probe w c oid bad) = Raised err"
    and "\<not> error_matches_status E err (OBJECT_NOT_FOUND E)"
    using fatal_probe_error by blast
  then have "aborted (nodes_without_loop E w c oid ns issued acc)"
    using pre by (simp add: ns nodes_without_loop_abort aborted_def)
  with True show ?thesis by simp
next
  case False
  then have "\<not> aborted (nodes_without_loop E w c oid ns issued acc)"
    by (simp add: nodes_without_loop_clean aborted_def)
  with False show ?thesis by simp
qed

lemma lacks_iff_not_holds:
  "\<not> fatal_probe E w c oid n \<Longrightarrow> lacks_copy E w c oid n = (\<not> holds_copy E w c oid n)"
  by (auto simp: lacks_copy_def holds_copy_def fatal_probe_def split: outcome.splits)

lemma nodes_to_search_no_skip:
  "nodes_to_search E None = NEOFS_NETMAP E" "nodes_to_search E (Some []) = NEOFS_NETMAP E"
  by (simp_all add: nodes_to_search_def)

lemma get_simple_object_copies_eq:
  "get_simple_object_copies E w c oid =
     (map (direct_probe w c oid) (NEOFS_NETMAP E),
      Inr (int (length (filter (counts_copy E w c oid) (NEOFS_NETMAP E)))))"
  by (simp add: get_simple_object_copies_def simple_copies_loop_eq)

lemma get_nodes_with_object_eq:
  "get_nodes_with_object E w c oid skip =
     (map (direct_probe w c oid) (nodes_to_search E skip),
      Inr (filter (holds_copy E w c oid) (nodes_to_search E skip)))"
  by (simp add: get_nodes_with_object_def nodes_with_loop_eq)

lemma get_nodes_without_object_clean:
  "\<forall>n\<in>set (NEOFS_NETMAP E). \<not> fatal_probe E w c oid n \<Longrightarrow>
   get_nodes_without_object E w c oid =
     (map (direct_probe w c oid) (NEOFS_NETMAP E),
      Inr (filter (lacks_copy E w c oid) (NEOFS_NETMAP E)))"
  by (simp add: get_nodes_without_object_def nodes_without_loop_clean)

lemma nodes_without_loop_swap:
  "error_matches_status E err (OBJECT_NOT_FOUND E) \<Longrightarrow>
   nodes_without_loop (with_outcome E p (Returned PyNone)) w c oid ns issued acc =
   nodes_without_loop (with_outcome E p (Raised err)) w c oid ns issued acc"
  by (induction ns arbitrary: issued acc)
     (auto simp: with_outcome_def Let_def split: outcome.splits)

section \<open>Tokens of \<^verbatim>\<open>str.split()\<close>\<close>

text \<open>
  A run of whitespace, then a non-empty run of other characters, then the end of the
  string or a whitespace character: the run is the first token, and splitting goes on
  behind it.
\<close>

lemma split_ws_token:
  assumes ws: "\<forall>x\<in>set ws. isspace x"
    and t: "t \<noteq> []" "\<forall>x\<in>set t. \<not> isspace x"
    and rest: "rest = [] \<or> isspace (hd rest)"
  shows "split_ws (ws @ t @ rest) = t # split_ws rest"
proof -
  from t obtain ch cs where tc: "t = ch # cs" by (cases t) auto
  have d: "dropWhile isspace (ws @ (ch # cs) @ rest) = ch # (cs @ rest)"
    using ws t by (simp add: tc dropWhile_append2)
  have tk: "takeWhile (\<lambda>x. \<not> isspace x) (cs @ rest) = cs"
    using t rest by (cases rest) (auto simp: tc takeWhile_append2 takeWhile_eq_all_conv)
  have dr: "dropWhile (\<lambda>x. \<not> isspace x) (cs @ rest) = rest"
    using t rest by (cases rest) (auto simp: tc dropWhile_append2)
  have "split_ws (ws @ (ch # cs) @ rest) = (ch # cs) # split_ws rest"
    by (subst split_ws.simps) (simp only: d tk dr list.case)
  then show ?thesis by (simp only: tc)
qed

lemma split_ws_two_tokens:
  assumes "\<forall>x\<in>set ws0. isspace x" "t1 \<noteq> []" "\<forall>x\<in>set t1. \<not> isspace x"
    and "ws1 \<noteq> []" "\<forall>x\<in>set ws1. isspace x" "t2 \<noteq> []" "\<forall>x\<in>set t2. \<not> isspace x"
    and "rest = [] \<or> isspace (hd rest)"
  shows "split_ws (ws0 @ t1 @ ws1 @ t2 @ rest) = t1 # t2 # split_ws rest"
proof -
  have "ws1 @ t2 @ rest = [] \<or> isspace (hd (ws1 @ t2 @ rest))"
    using assms(4,5) by (cases ws1) auto
  then have "split_ws (ws0 @ t1 @ (ws1 @ t2 @ rest)) = t1 # split_ws (ws1 @ t2 @ rest)"
    using assms(1-3) by (rule split_ws_token [rotated 3])
  moreover have "split_ws (ws1 @ t2 @ rest) = t2 # split_ws rest"
    using assms(5-8) by (rule split_ws_token)
  ultimately show ?thesis by simp
qed

section \<open>Which probe failures end a scan\<close>




section \<open>Holders and non-holders partition the map\<close>

text \<open>
  Claim C3. When no probe of a node of \<^verbatim>\<open>NEOFS_NETMAP\<close> raises an error other than
  \<^verbatim>\<open>OBJECT_NOT_FOUND\<close> and no node is skipped (\<^verbatim>\<open>skip_nodes\<close> is \<^verbatim>\<open>None\<close> or empty),
  \<^verbatim>\<open>get_nodes_with_object\<close> and \<^verbatim>\<open>get_nodes_without_object\<close> both return a list, the two
  lists have no node in common, together they hold every node of the map, and their
  lengths add up to the length of the map.
\<close>

theorem C3_with_without_partition:
  assumes "\<forall>n\<in>set (NEOFS_NETMAP E). \<not> fatal_probe E w c oid n"
    and "skip_nodes = None \<or> skip_nodes = Some []"
  shows "\<exists>holders others.
           snd (get_nodes_with_object E w c oid skip_nodes) = Inr holders
         \<and> snd (get_nodes_without_object E w c oid) = Inr others
         \<and> set holders \<inter> set others = {}
         \<and> set holders \<union> set others = set (NEOFS_NETMAP E)
         \<and> length holders + length others = length (NEOFS_NETMAP E)"
proof -
  let ?N = "NEOFS_NETMAP E"
  have search: "nodes_to_search E skip_nodes = ?N"
    using assms(2) nodes_to_search_no_skip by auto
  have compl: "filter (lacks_copy E w c oid) ?N = filter (\<lambda>n. \<not> holds_copy E w c oid n) ?N"
    using assms(1) by (intro filter_cong refl) (simp add: lacks_iff_not_holds)
  have w: "snd (get_nodes_with_object E w c oid skip_nodes) = Inr (filter (holds_copy E w c oid) ?N)"
    by (simp add: get_nodes_with_object_eq search)
  have wo: "snd (get_nodes_without_object E w c oid)
              = Inr (filter (\<lambda>n. \<not> holds_copy E w c oid n) ?N)"
    using assms(1) by (simp add: get_nodes_without_object_clean compl)
  have "set (filter (holds_copy E w c oid) ?N) \<inter> set (filter (\<lambda>n. \<not> holds_copy E w c oid n) ?N) = {}"
    by auto
  moreover have "set (filter (holds_copy E w c oid) ?N) \<union> set (filter (\<lambda>n. \<not> holds_copy E w c oid n) ?N) = set ?N"
    by auto
  moreover have "length (filter (holds_copy E w c oid) ?N)
      + length (filter (\<lambda>n. \<not> holds_copy E w c oid n) ?N) = length ?N"
    by (rule sum_length_filter_compl)
  ultimately show ?thesis using w wo by blast
qed

theorem C3_with_without_partition_witness:
  "filter (fatal_probe env_clean ''w'' ''c'' ''o'') (NEOFS_NETMAP env_clean) = []
   \<and> snd (get_nodes_with_object env_clean ''w'' ''c'' ''o'' None) = Inr [''s01'', ''s04'']
   \<and> snd (get_nodes_without_object env_clean ''w'' ''c'' ''o'') = Inr [''s02'', ''s03'']
   \<and> (\<exists>holders others.
           snd (get_nodes_with_object env_clean ''w'' ''c'' ''o'' None) = Inr holders
         \<and> snd (get_nodes_without_object env_clean ''w'' ''c'' ''o'') = Inr others
         \<and> set holders \<inter> set others = {}
         \<and> set holders \<union> set others = set (NEOFS_NETMAP env_clean)
         \<and> length holders + length others = length (NEOFS_NETMAP env_clean))"
proof -
  have h: "\<forall>n\<in>set (NEOFS_NETMAP env_clean). \<not> fatal_probe env_clean ''w'' ''c'' ''o'' n"
    by (simp add: env_clean_def table_env_def direct_probe_def fatal_probe_def)
  have a: "snd (get_nodes_with_object env_clean ''w'' ''c'' ''o'' None) = Inr [''s01'', ''s04'']"
    by (simp add: env_clean_def table_env_def get_nodes_with_object_def nodes_to_search_def)
  have b: "snd (get_nodes_without_object env_clean ''w'' ''c'' ''o'') = Inr [''s02'', ''s03'']"
    by (simp add: env_clean_def table_env_def get_nodes_without_object_def)
  have h': "filter (fatal_probe env_clean ''w'' ''c'' ''o'') (NEOFS_NETMAP env_clean) = []"
    using h by (simp add: filter_empty_conv)
  from h' a b C3_with_without_partition [OF h, of None] show ?thesis by blast
qed

section \<open>Copies of a complex object\<close>

text \<open>
  Claim C4. When \<^verbatim>\<open>get_last_object\<close> returns a non-empty object id, the result of
  \<^verbatim>\<open>get_complex_object_copies\<close> is that of \<^verbatim>\<open>get_simple_object_copies\<close> for that id:
  the probes go to the last part at every node of the map and the count is the number of
  nodes answering with a non-empty response. When it returns \<^verbatim>\<open>None\<close> or the empty
  string the call ends with the \<^verbatim>\<open>AssertionError\<close> of the source, and when it raises, the
  exception leaves the call; in neither case is a count returned.
\<close>

theorem C4_complex_is_last_part:
  "(get_last_object E w c oid = Returned (Some last_oid) \<and> last_oid \<noteq> []
      \<longrightarrow> get_complex_object_copies E w c oid = get_simple_object_copies E w c last_oid
        \<and> fst (get_complex_object_copies E w c oid) = map (direct_probe w c last_oid) (NEOFS_NETMAP E)
        \<and> snd (get_complex_object_copies E w c oid)
            = Inr (int (length (filter (counts_copy E w c last_oid) (NEOFS_NETMAP E)))))
   \<and> (get_last_object E w c oid = Returned None \<or> get_last_object E w c oid = Returned (Some [])
      \<longrightarrow> get_complex_object_copies E w c oid =
            ([], Inl (AssertionError
               (''No Last Object for '' @ c @ ''/'' @ oid @ '' found among all Storage Nodes''))))
   \<and> (get_last_object E w c oid = Raised err
      \<longrightarrow> get_complex_object_copies E w c oid = ([], Inl err))"
  by (auto simp: get_complex_object_copies_def get_simple_object_copies_eq)

theorem C4_complex_is_last_part_witness:
  "get_last_object env_clean ''w'' ''c'' ''big'' = Returned (Some ''last'')
   \<and> get_complex_object_copies env_clean ''w'' ''c'' ''big''
       = get_simple_object_copies env_clean ''w'' ''c'' ''last''
   \<and> snd (get_complex_object_copies env_clean ''w'' ''c'' ''big'') = Inr 2
   \<and> get_last_object env_clean ''w'' ''c'' ''lost'' = Returned None
   \<and> get_complex_object_copies env_clean ''w'' ''c'' ''lost'' =
        ([], Inl (AssertionError ''No Last Object for c/lost found among all Storage Nodes''))
   \<and> get_last_object env_clean ''w'' ''c'' ''gone'' = Raised (RuntimeError ''head failed'')
   \<and> get_complex_object_copies env_clean ''w'' ''c'' ''gone''
        = ([], Inl (RuntimeError ''head failed''))"
proof -
  have a: "get_last_object env_clean ''w'' ''c'' ''big'' = Returned (Some ''last'')"
    by (simp add: env_clean_def table_env_def)
  have b: "get_last_object env_clean ''w'' ''c'' ''lost'' = Returned None"
    by (simp add: env_clean_def table_env_def)
  have d: "get_last_object env_clean ''w'' ''c'' ''gone'' = Raised (RuntimeError ''head failed'')"
    by (simp add: env_clean_def table_env_def)
  have k: "int (length (filter (counts_copy env_clean ''w'' ''c'' ''last'') (NEOFS_NETMAP env_clean))) = 2"
    by (simp add: env_clean_def table_env_def counts_copy_def direct_probe_def)
  have big: "get_complex_object_copies env_clean ''w'' ''c'' ''big''
               = get_simple_object_copies env_clean ''w'' ''c'' ''last''
             \<and> snd (get_complex_object_copies env_clean ''w'' ''c'' ''big'')
                 = Inr (int (length (filter (counts_copy env_clean ''w'' ''c'' ''last'')
                     (NEOFS_NETMAP env_clean))))"
    using a C4_complex_is_last_part [of env_clean "''w''" "''c''" "''big''" "''last''"]
    by blast
  have lost: "get_complex_object_copies env_clean ''w'' ''c'' ''lost'' =
        ([], Inl (AssertionError ''No Last Object for c/lost found among all Storage Nodes''))"
    using b C4_complex_is_last_part [of env_clean "''w''" "''c''" "''lost''"] by simp
  have gone: "get_complex_object_copies env_clean ''w'' ''c'' ''gone''
        = ([], Inl (RuntimeError ''head failed''))"
    using d C4_complex_is_last_part [of env_clean "''w''" "''c''" "''gone''" _
        "RuntimeError ''head failed''"]
    by blast
  from big have "snd (get_complex_object_copies env_clean ''w'' ''c'' ''big'')
                   = Inr (int (length (filter (counts_copy env_clean ''w'' ''c'' ''last'')
                       (NEOFS_NETMAP env_clean))))"
    by (rule conjunct2)
  then have "snd (get_complex_object_copies env_clean ''w'' ''c'' ''big'') = Inr 2"
    by (simp only: k)
  with a b d big lost gone show ?thesis by blast
qed

section \<open>The group name of the placement policy\<close>

text \<open>
  Claim C5. The group name is \<^verbatim>\<open>SPB\<close> for the UN-LOCODE \<^verbatim>\<open>RU LED\<close>. For any other
  value it is the second whitespace-separated token: when the value is a run of
  whitespace (possibly empty), a first token, whitespace, a second token, and then
  either nothing or something that starts with whitespace, the group name is that second
  token. A value with fewer than two tokens gives no group name: the index raises
  \<^verbatim>\<open>IndexError\<close>.
\<close>

theorem C5_locode_group_name:
  "locode_of ''RU LED'' = Inr ''SPB''
   \<and> (un_locode \<noteq> ''RU LED''
        \<and> un_locode = ws0 @ t1 @ ws1 @ t2 @ rest
        \<and> (\<forall>x\<in>set ws0. isspace x)
        \<and> t1 \<noteq> [] \<and> (\<forall>x\<in>set t1. \<not> isspace x)
        \<and> ws1 \<noteq> [] \<and> (\<forall>x\<in>set ws1. isspace x)
        \<and> t2 \<noteq> [] \<and> (\<forall>x\<in>set t2. \<not> isspace x)
        \<and> (rest = [] \<or> isspace (hd rest))
      \<longrightarrow> locode_of un_locode = Inr t2)
   \<and> (un_locode \<noteq> ''RU LED'' \<and> length (split_ws un_locode) < 2
      \<longrightarrow> locode_of un_locode = Inl (IndexError ''list index out of range''))"
proof -
  have a: "locode_of ''RU LED'' = Inr ''SPB''"
    by (simp add: locode_of_def)
  have b: "locode_of un_locode = Inr t2"
    if "un_locode \<noteq> ''RU LED''" "un_locode = ws0 @ t1 @ ws1 @ t2 @ rest"
      "\<forall>x\<in>set ws0. isspace x" "t1 \<noteq> []" "\<forall>x\<in>set t1. \<not> isspace x"
      "ws1 \<noteq> []" "\<forall>x\<in>set ws1. isspace x" "t2 \<noteq> []" "\<forall>x\<in>set t2. \<not> isspace x"
      "rest = [] \<or> isspace (hd rest)"
  proof -
    have "split_ws un_locode = t1 # t2 # split_ws rest"
      unfolding that(2) using that(3-10) by (rule split_ws_two_tokens)
    with that(1) show ?thesis by (simp add: locode_of_def)
  qed
  have c: "locode_of un_locode = Inl (IndexError ''list index out of range'')"
    if "un_locode \<noteq> ''RU LED''" "length (split_ws un_locode) < 2"
  proof -
    from that(2) have "split_ws un_locode = [] \<or> (\<exists>t. split_ws un_locode = [t])"
      by (cases "split_ws un_locode" rule: index_1.cases) auto
    with that(1) show ?thesis by (auto simp: locode_of_def)
  qed
  from a b c show ?thesis by blast
qed

text \<open>The locode \<^verbatim>\<open>RU MOW\<close> gives \<^verbatim>\<open>MOW\<close>; the single token \<^verbatim>\<open>RU\<close> gives the error.\<close>

theorem C5_locode_group_name_witness:
  "locode_of ''RU MOW'' = Inr ''MOW''
   \<and> length (split_ws ''RU'') < 2
   \<and> locode_of ''RU'' = Inl (IndexError ''list index out of range'')"
proof -
  have d: "''RU MOW'' \<noteq> ''RU LED'' \<and> ''RU MOW'' = [] @ ''RU'' @ '' '' @ ''MOW'' @ []
        \<and> (\<forall>x\<in>set []. isspace x)
        \<and> ''RU'' \<noteq> [] \<and> (\<forall>x\<in>set ''RU''. \<not> isspace x)
        \<and> '' '' \<noteq> [] \<and> (\<forall>x\<in>set '' ''. isspace x)
        \<and> ''MOW'' \<noteq> [] \<and> (\<forall>x\<in>set ''MOW''. \<not> isspace x)
        \<and> ([] = [] \<or> isspace (hd []))"
    by (simp add: isspace_def)
  have a: "locode_of ''RU MOW'' = Inr ''MOW''"
    using d C5_locode_group_name [of "''RU MOW''" "[]" "''RU''" "'' ''" "''MOW''" "[]"]
    by blast
  have s: "split_ws ''RU'' = [''RU'']"
    by (simp add: split_ws.simps [of "''RU''"] split_ws.simps [of "[]"] isspace_def)
  have l: "''RU'' \<noteq> ''RU LED'' \<and> length (split_ws ''RU'') < 2"
    by (simp add: s)
  have b: "locode_of ''RU'' = Inl (IndexError ''list index out of range'')"
    using l C5_locode_group_name [of "''RU''"] by blast
  from a l b show ?thesis by blast
qed

section \<open>The text of the placement policy\<close>

text \<open>
  Claim C6. For a group name \<open>L\<close> and a UN-LOCODE \<open>V\<close> the policy text is the string
  \<^verbatim>\<open>REP 1 IN LOC_L_PLACE CBF 1 SELECT 1 FROM LOC_L AS LOC_L_PLACE FILTER "UN-LOCODE" EQ "V"
  AS LOC_L\<close>, which is the grammar of the specification with replication factor, backup
  factor and selection width 1, the groups \<^verbatim>\<open>LOC_L_PLACE\<close> and \<^verbatim>\<open>LOC_L\<close>, the attribute
  \<^verbatim>\<open>UN-LOCODE\<close> and the value \<open>V\<close>. Whenever \<open>L\<close> is the group name derived from \<open>V\<close>,
  this string is what container creation receives as its rule; when no group name can
  be derived, the error of the derivation leaves the set-up and no rule is passed. For
  \<^verbatim>\<open>RU LED\<close> the rule is the policy of the specification's scenario.
\<close>

theorem C6_placement_policy_text:
  \<open>placement_policy L V =
      ''REP 1 IN LOC_'' @ L @ ''_PLACE CBF 1 SELECT 1 FROM LOC_'' @ L @ '' AS LOC_'' @ L
        @ ''_PLACE FILTER "UN-LOCODE" EQ "'' @ V @ ''" AS LOC_'' @ L
   \<and> placement_policy L V =
      spec_policy_grammar
        \<lparr> rep = ''1'', rep_in = ''LOC_'' @ L @ ''_PLACE'', cbf = ''1'', select = ''1'',
          select_from = ''LOC_'' @ L, select_as = ''LOC_'' @ L @ ''_PLACE'',
          filter_attr = ''UN-LOCODE'', filter_value = V, filter_as = ''LOC_'' @ L \<rparr>
   \<and> placement_policy ''SPB'' ''RU LED'' =
      ''REP 1 IN LOC_SPB_PLACE CBF 1 SELECT 1 FROM LOC_SPB AS LOC_SPB_PLACE FILTER "UN-LOCODE" EQ "RU LED" AS LOC_SPB''
   \<and> container_rule ''RU LED'' = Inr (placement_policy ''SPB'' ''RU LED'')
   \<and> (locode_of V = Inr L \<longrightarrow>
        container_rule V =
          Inr (''REP 1 IN LOC_'' @ L @ ''_PLACE CBF 1 SELECT 1 FROM LOC_'' @ L @ '' AS LOC_'' @ L
                 @ ''_PLACE FILTER "UN-LOCODE" EQ "'' @ V @ ''" AS LOC_'' @ L)
      \<and> container_rule V =
          Inr (spec_policy_grammar
                 \<lparr> rep = ''1'', rep_in = ''LOC_'' @ L @ ''_PLACE'', cbf = ''1'', select = ''1'',
                   select_from = ''LOC_'' @ L, select_as = ''LOC_'' @ L @ ''_PLACE'',
                   filter_attr = ''UN-LOCODE'', filter_value = V, filter_as = ''LOC_'' @ L \<rparr>))
   \<and> (locode_of V = Inl err \<longrightarrow> container_rule V = Inl err)\<close>
  by (simp add: placement_policy_def spec_policy_grammar_def container_rule_def locode_of_def)

text \<open>
  The rule for \<^verbatim>\<open>RU MOW\<close>, whose derived group is \<^verbatim>\<open>MOW\<close>, the rule for \<^verbatim>\<open>RU LED\<close>, and the
  single token \<^verbatim>\<open>RU\<close>, for which no rule is built.
\<close>

theorem C6_placement_policy_text_witness:
  \<open>locode_of ''RU MOW'' = Inr ''MOW''
   \<and> container_rule ''RU MOW'' =
       Inr ''REP 1 IN LOC_MOW_PLACE CBF 1 SELECT 1 FROM LOC_MOW AS LOC_MOW_PLACE FILTER "UN-LOCODE" EQ "RU MOW" AS LOC_MOW''
   \<and> locode_of ''RU LED'' = Inr ''SPB''
   \<and> container_rule ''RU LED'' =
       Inr ''REP 1 IN LOC_SPB_PLACE CBF 1 SELECT 1 FROM LOC_SPB AS LOC_SPB_PLACE FILTER "UN-LOCODE" EQ "RU LED" AS LOC_SPB''
   \<and> locode_of ''RU'' = Inl (IndexError ''list index out of range'')
   \<and> container_rule ''RU'' = Inl (IndexError ''list index out of range'')\<close>
proof -
  have "split_ws ([] @ ''RU'' @ '' '' @ ''MOW'' @ []) = ''RU'' # ''MOW'' # split_ws []"
    by (rule split_ws_two_tokens) (simp_all add: isspace_def)
  then have mow: "locode_of ''RU MOW'' = Inr ''MOW''"
    by (simp add: locode_of_def)
  have led: "locode_of ''RU LED'' = Inr ''SPB''"
    by (simp add: locode_of_def)
  have "split_ws ([] @ ''RU'' @ []) = ''RU'' # split_ws []"
    by (rule split_ws_token) (simp_all add: isspace_def)
  moreover have "split_ws [] = []"
    by (simp add: split_ws.simps [of "[]"])
  ultimately have ru: "locode_of ''RU'' = Inl (IndexError ''list index out of range'')"
    by (simp add: locode_of_def)
  have a: \<open>container_rule ''RU MOW'' =
       Inr (''REP 1 IN LOC_'' @ ''MOW'' @ ''_PLACE CBF 1 SELECT 1 FROM LOC_'' @ ''MOW'' @ '' AS LOC_'' @ ''MOW''
                 @ ''_PLACE FILTER "UN-LOCODE" EQ "'' @ ''RU MOW'' @ ''" AS LOC_'' @ ''MOW'')\<close>
    using mow C6_placement_policy_text [of "''MOW''" "''RU MOW''"] by blast
  have b: \<open>container_rule ''RU LED'' =
       Inr (''REP 1 IN LOC_'' @ ''SPB'' @ ''_PLACE CBF 1 SELECT 1 FROM LOC_'' @ ''SPB'' @ '' AS LOC_'' @ ''SPB''
                 @ ''_PLACE FILTER "UN-LOCODE" EQ "'' @ ''RU LED'' @ ''" AS LOC_'' @ ''SPB'')\<close>
    using led C6_placement_policy_text [of "''SPB''" "''RU LED''"] by blast
  have c: "container_rule ''RU'' = Inl (IndexError ''list index out of range'')"
    using ru C6_placement_policy_text [of _ "''RU''" "IndexError ''list index out of range''"] by blast
  from a have a': \<open>container_rule ''RU MOW'' =
       Inr ''REP 1 IN LOC_MOW_PLACE CBF 1 SELECT 1 FROM LOC_MOW AS LOC_MOW_PLACE FILTER "UN-LOCODE" EQ "RU MOW" AS LOC_MOW''\<close>
    by simp
  from b have b': \<open>container_rule ''RU LED'' =
       Inr ''REP 1 IN LOC_SPB_PLACE CBF 1 SELECT 1 FROM LOC_SPB AS LOC_SPB_PLACE FILTER "UN-LOCODE" EQ "RU LED" AS LOC_SPB''\<close>
    by simp
  from mow led ru a' b' c show ?thesis by blast
qed

text \<open>A list returned by \<^verbatim>\<open>get_nodes_without_object\<close> is the map filtered by \<open>lacks_copy\<close>.\<close>

lemma get_nodes_without_object_returns:
  assumes "snd (get_nodes_without_object E w c oid) = Inr res"
  shows "res = filter (lacks_copy E w c oid) (NEOFS_NETMAP E)"
proof -
  from assms have "\<not> aborted (get_nodes_without_object E w c oid)"
    by (simp add: aborted_def)
  then have "\<forall>n\<in>set (NEOFS_NETMAP E). \<not> fatal_probe E w c oid n"
    by (simp add: get_nodes_without_object_def nodes_without_loop_aborted)
  then have "snd (get_nodes_without_object E w c oid)
               = Inr (filter (lacks_copy E w c oid) (NEOFS_NETMAP E))"
    by (simp add: get_nodes_without_object_clean)
  with assms show ?thesis by simp
qed

section \<open>A \<^verbatim>\<open>None\<close> result and a not-found error\<close>

text \<open>
  Claim C7. In \<^verbatim>\<open>get_nodes_without_object\<close> a probe that returns \<^verbatim>\<open>None\<close> and a probe that
  raises an error matching \<^verbatim>\<open>OBJECT_NOT_FOUND\<close> have the same effect: exchanging one for
  the other at a node changes neither the probes issued nor the result of the scan, and
  whenever the scan returns a list, a node of the map with either outcome is in it.
\<close>

theorem C7_none_and_not_found_alike:
  assumes "error_matches_status E err (OBJECT_NOT_FOUND E)"
  shows "get_nodes_without_object (with_outcome E (direct_probe w c oid node) (Returned PyNone)) w c oid
           = get_nodes_without_object (with_outcome E (direct_probe w c oid node) (Raised err)) w c oid
       \<and> ((head_object E (direct_probe w c oid node) = Returned PyNone
            \<or> head_object E (direct_probe w c oid node) = Raised err)
          \<and> node \<in> set (NEOFS_NETMAP E)
          \<and> snd (get_nodes_without_object E w c oid) = Inr res
          \<longrightarrow> node \<in> set res)"
proof -
  have same: "get_nodes_without_object (with_outcome E (direct_probe w c oid node) (Returned PyNone)) w c oid
           = get_nodes_without_object (with_outcome E (direct_probe w c oid node) (Raised err)) w c oid"
    using assms
    by (simp add: get_nodes_without_object_def nodes_without_loop_swap)
       (simp add: with_outcome_def)
  have incl: "node \<in> set res"
    if "head_object E (direct_probe w c oid node) = Returned PyNone
          \<or> head_object E (direct_probe w c oid node) = Raised err"
      "node \<in> set (NEOFS_NETMAP E)"
      "snd (get_nodes_without_object E w c oid) = Inr res"
  proof -
    from that(1) assms have "lacks_copy E w c oid node"
      by (auto simp: lacks_copy_def)
    moreover from that(3) have "res = filter (lacks_copy E w c oid) (NEOFS_NETMAP E)"
      by (rule get_nodes_without_object_returns)
    ultimately show ?thesis using that(2) by simp
  qed
  from same incl show ?thesis by blast
qed

theorem C7_none_and_not_found_alike_witness:
  "error_matches_status env_clean (RuntimeError ''object not found'') (OBJECT_NOT_FOUND env_clean)
   \<and> head_object env_clean (direct_probe ''w'' ''c'' ''o'' ''s02'') = Returned PyNone
   \<and> head_object env_clean (direct_probe ''w'' ''c'' ''o'' ''s03'')
        = Raised (RuntimeError ''object not found'')
   \<and> snd (get_nodes_without_object env_clean ''w'' ''c'' ''o'') = Inr [''s02'', ''s03'']
   \<and> ''s02'' \<in> set [''s02'', ''s03''] \<and> ''s03'' \<in> set [''s02'', ''s03'']
   \<and> get_nodes_without_object
        (with_outcome env_clean (direct_probe ''w'' ''c'' ''o'' ''s01'') (Returned PyNone))
        ''w'' ''c'' ''o''
      = get_nodes_without_object
        (with_outcome env_clean (direct_probe ''w'' ''c'' ''o'' ''s01'')
           (Raised (RuntimeError ''object not found'')))
        ''w'' ''c'' ''o''"
proof -
  have m: "error_matches_status env_clean (RuntimeError ''object not found'')
             (OBJECT_NOT_FOUND env_clean)"
    by (simp add: env_clean_def table_env_def)
  have a: "head_object env_clean (direct_probe ''w'' ''c'' ''o'' ''s02'') = Returned PyNone"
    by (simp add: env_clean_def table_env_def direct_probe_def)
  have b: "head_object env_clean (direct_probe ''w'' ''c'' ''o'' ''s03'')
        = Raised (RuntimeError ''object not found'')"
    by (simp add: env_clean_def table_env_def direct_probe_def)
  have n: "''s02'' \<in> set (NEOFS_NETMAP env_clean) \<and> ''s03'' \<in> set (NEOFS_NETMAP env_clean)"
    by (simp add: env_clean_def table_env_def)
  have r: "snd (get_nodes_without_object env_clean ''w'' ''c'' ''o'') = Inr [''s02'', ''s03'']"
    by (simp add: env_clean_def table_env_def get_nodes_without_object_def)
  have i2: "''s02'' \<in> set [''s02'', ''s03'']"
    using a n r
      C7_none_and_not_found_alike [OF m, of "''w''" "''c''" "''o''" "''s02''" "[''s02'', ''s03'']"]
    by blast
  have i3: "''s03'' \<in> set [''s02'', ''s03'']"
    using b n r
      C7_none_and_not_found_alike [OF m, of "''w''" "''c''" "''o''" "''s03''" "[''s02'', ''s03'']"]
    by blast
  have sw: "get_nodes_without_object
        (with_outcome env_clean (direct_probe ''w'' ''c'' ''o'' ''s01'') (Returned PyNone))
        ''w'' ''c'' ''o''
      = get_nodes_without_object
        (with_outcome env_clean (direct_probe ''w'' ''c'' ''o'' ''s01'')
           (Raised (RuntimeError ''object not found'')))
        ''w'' ''c'' ''o''"
    using C7_none_and_not_found_alike [OF m, of "''w''" "''c''" "''o''" "''s01''"] by blast
  from m a b r i2 i3 sw show ?thesis by blast
qed

section \<open>The probes a scan issues\<close>

text \<open>
  Claim C8, as the code has it. With no node skipped, \<^verbatim>\<open>get_simple_object_copies\<close> and
  \<^verbatim>\<open>get_nodes_with_object\<close> issue one direct probe (\<^verbatim>\<open>is_direct=True\<close>) per entry of
  \<^verbatim>\<open>NEOFS_NETMAP\<close>, in the order of the map, and so does \<^verbatim>\<open>get_nodes_without_object\<close> when
  no probe is fatal. Their results keep exactly the nodes that pass a test of the node's
  own probe outcome. When some probe is fatal, \<^verbatim>\<open>get_nodes_without_object\<close> probes the
  nodes up to and including the first fatal one and no node behind it.
\<close>

theorem C8_one_direct_probe_per_node:
  "fst (get_simple_object_copies E w c oid) = map (\<lambda>node. Head w c oid node True) (NEOFS_NETMAP E)
   \<and> snd (get_simple_object_copies E w c oid)
       = Inr (int (length (filter (counts_copy E w c oid) (NEOFS_NETMAP E))))
   \<and> (skip_nodes = None \<or> skip_nodes = Some [] \<longrightarrow>
        fst (get_nodes_with_object E w c oid skip_nodes)
          = map (\<lambda>node. Head w c oid node True) (NEOFS_NETMAP E)
      \<and> snd (get_nodes_with_object E w c oid skip_nodes)
          = Inr (filter (holds_copy E w c oid) (NEOFS_NETMAP E)))
   \<and> ((\<forall>n\<in>set (NEOFS_NETMAP E). \<not> fatal_probe E w c oid n) \<longrightarrow>
        fst (get_nodes_without_object E w c oid)
          = map (\<lambda>node. Head w c oid node True) (NEOFS_NETMAP E)
      \<and> snd (get_nodes_without_object E w c oid)
          = Inr (filter (lacks_copy E w c oid) (NEOFS_NETMAP E)))
   \<and> (NEOFS_NETMAP E = pre @ bad # post
        \<and> (\<forall>n\<in>set pre. \<not> fatal_probe E w c oid n) \<and> fatal_probe E w c oid bad \<longrightarrow>
        fst (get_nodes_without_object E w c oid)
          = map (\<lambda>node. Head w c oid node True) (pre @ [bad]))"
proof -
  have dp: "direct_probe w c oid = (\<lambda>node. Head w c oid node True)"
    by (rule ext) (simp add: direct_probe_def)
  have a: "fst (get_simple_object_copies E w c oid) = map (\<lambda>node. Head w c oid node True) (NEOFS_NETMAP E)
   \<and> snd (get_simple_object_copies E w c oid)
       = Inr (int (length (filter (counts_copy E w c oid) (NEOFS_NETMAP E))))"
    by (simp add: get_simple_object_copies_eq dp)
  have b: "fst (get_nodes_with_object E w c oid skip_nodes)
          = map (\<lambda>node. Head w c oid node True) (NEOFS_NETMAP E)
      \<and> snd (get_nodes_with_object E w c oid skip_nodes)
          = Inr (filter (holds_copy E w c oid) (NEOFS_NETMAP E))"
    if "skip_nodes = None \<or> skip_nodes = Some []"
    using that by (auto simp: get_nodes_with_object_eq nodes_to_search_no_skip dp)
  have d: "fst (get_nodes_without_object E w c oid)
          = map (\<lambda>node. Head w c oid node True) (NEOFS_NETMAP E)
      \<and> snd (get_nodes_without_object E w c oid)
          = Inr (filter (lacks_copy E w c oid) (NEOFS_NETMAP E))"
    if "\<forall>n\<in>set (NEOFS_NETMAP E). \<not> fatal_probe E w c oid n"
    using that by (simp add: get_nodes_without_object_clean dp)
  have e: "fst (get_nodes_without_object E w c oid)
          = map (\<lambda>node. Head w c oid node True) (pre @ [bad])"
    if "NEOFS_NETMAP E = pre @ bad # post" "\<forall>n\<in>set pre. \<not> fatal_probe E w c oid n"
      "fatal_probe E w c oid bad"
  proof -
    from that(3) obtain err where "head_object E (direct_probe w c oid bad) = Raised err"
      and "\<not> error_matches_status E err (OBJECT_NOT_FOUND E)"
      using fatal_probe_error by blast
    with that(1,2) show ?thesis
      by (simp add: get_nodes_without_object_def nodes_without_loop_abort dp)
  qed
  from a b d e show ?thesis by blast
qed

theorem C8_one_direct_probe_per_node_witness:
  "filter (fatal_probe env_clean ''w'' ''c'' ''o'') (NEOFS_NETMAP env_clean) = []
   \<and> fst (get_nodes_without_object env_clean ''w'' ''c'' ''o'')
       = map (\<lambda>node. Head ''w'' ''c'' ''o'' node True) [''s01'', ''s02'', ''s03'', ''s04'']
   \<and> fst (get_nodes_with_object env_clean ''w'' ''c'' ''o'' None)
       = map (\<lambda>node. Head ''w'' ''c'' ''o'' node True) [''s01'', ''s02'', ''s03'', ''s04'']
   \<and> NEOFS_NETMAP env_faulty = [''s01''] @ ''s02'' # [''s03'', ''s04'']
   \<and> fatal_probe env_faulty ''w'' ''c'' ''o'' ''s02''
   \<and> fst (get_nodes_without_object env_faulty ''w'' ''c'' ''o'')
       = map (\<lambda>node. Head ''w'' ''c'' ''o'' node True) [''s01'', ''s02'']"
proof -
  have h: "\<forall>n\<in>set (NEOFS_NETMAP env_clean). \<not> fatal_probe env_clean ''w'' ''c'' ''o'' n"
    by (simp add: env_clean_def table_env_def direct_probe_def fatal_probe_def)
  have n: "NEOFS_NETMAP env_clean = [''s01'', ''s02'', ''s03'', ''s04'']"
    by (simp add: env_clean_def table_env_def)
  have p: "NEOFS_NETMAP env_faulty = [''s01''] @ ''s02'' # [''s03'', ''s04'']
        \<and> (\<forall>n\<in>set [''s01'']. \<not> fatal_probe env_faulty ''w'' ''c'' ''o'' n)
        \<and> fatal_probe env_faulty ''w'' ''c'' ''o'' ''s02''"
    by (simp add: env_faulty_def table_env_def direct_probe_def fatal_probe_def)
  have c1: "fst (get_nodes_without_object env_clean ''w'' ''c'' ''o'')
       = map (\<lambda>node. Head ''w'' ''c'' ''o'' node True) (NEOFS_NETMAP env_clean)
     \<and> fst (get_nodes_with_object env_clean ''w'' ''c'' ''o'' None)
       = map (\<lambda>node. Head ''w'' ''c'' ''o'' node True) (NEOFS_NETMAP env_clean)"
    using h C8_one_direct_probe_per_node [of env_clean "''w''" "''c''" "''o''" None]
    by blast
  have c2: "fst (get_nodes_without_object env_faulty ''w'' ''c'' ''o'')
       = map (\<lambda>node. Head ''w'' ''c'' ''o'' node True) ([''s01''] @ [''s02''])"
    using p C8_one_direct_probe_per_node [of env_faulty "''w''" "''c''" "''o''" _
        "[''s01'']" "''s02''" "[''s03'', ''s04'']"]
    by blast
  from c1 have c1': "fst (get_nodes_without_object env_clean ''w'' ''c'' ''o'')
       = map (\<lambda>node. Head ''w'' ''c'' ''o'' node True) [''s01'', ''s02'', ''s03'', ''s04'']
     \<and> fst (get_nodes_with_object env_clean ''w'' ''c'' ''o'' None)
       = map (\<lambda>node. Head ''w'' ''c'' ''o'' node True) [''s01'', ''s02'', ''s03'', ''s04'']"
    by (simp only: n)
  from c2 have c2': "fst (get_nodes_without_object env_faulty ''w'' ''c'' ''o'')
       = map (\<lambda>node. Head ''w'' ''c'' ''o'' node True) [''s01'', ''s02'']"
    by (simp only: append.simps)
  have h': "filter (fatal_probe env_clean ''w'' ''c'' ''o'') (NEOFS_NETMAP env_clean) = []"
    using h by (simp add: filter_empty_conv)
  from h' p c1' c2' show ?thesis by blast
qed

text \<open>
  With a refused connection at the second of four nodes, \<^verbatim>\<open>get_nodes_without_object\<close>
  never probes the third and the fourth.
\<close>

theorem C8_one_direct_probe_per_node_counterexample:
  "NEOFS_NETMAP env_faulty = [''s01'', ''s02'', ''s03'', ''s04'']
   \<and> fst (get_nodes_without_object env_faulty ''w'' ''c'' ''o'')
       = [Head ''w'' ''c'' ''o'' ''s01'' True, Head ''w'' ''c'' ''o'' ''s02'' True]
   \<and> Head ''w'' ''c'' ''o'' ''s03'' True \<notin> set (fst (get_nodes_without_object env_faulty ''w'' ''c'' ''o''))
   \<and> Head ''w'' ''c'' ''o'' ''s04'' True \<notin> set (fst (get_nodes_without_object env_faulty ''w'' ''c'' ''o''))"
  by (simp add: env_faulty_def table_env_def get_nodes_without_object_def)

section \<open>The count and the list of holders\<close>

text \<open>
  Claim C9, as the code has it. \<^verbatim>\<open>get_simple_object_copies\<close> counts a node when its
  response is true (\<^verbatim>\<open>if response:\<close>, a non-empty response), \<^verbatim>\<open>get_nodes_with_object\<close>
  keeps a node when its response is not \<^verbatim>\<open>None\<close>. When every response a node of the map
  returns is true exactly if it is not \<^verbatim>\<open>None\<close>, and no node is skipped, the count is the
  length of the list.
\<close>

theorem C9_count_is_length_of_holders:
  assumes "\<forall>n\<in>set (NEOFS_NETMAP E). \<forall>r.
             head_object E (Head w c oid n True) = Returned r \<longrightarrow> truthy r = (\<not> is_None r)"
    and "skip_nodes = None \<or> skip_nodes = Some []"
  shows "\<exists>holders. snd (get_nodes_with_object E w c oid skip_nodes) = Inr holders
           \<and> snd (get_simple_object_copies E w c oid) = Inr (int (length holders))"
proof -
  have search: "nodes_to_search E skip_nodes = NEOFS_NETMAP E"
    using assms(2) nodes_to_search_no_skip by auto
  have "filter (counts_copy E w c oid) (NEOFS_NETMAP E)
          = filter (holds_copy E w c oid) (NEOFS_NETMAP E)"
    using assms(1)
    by (intro filter_cong refl)
       (auto simp: counts_copy_def holds_copy_def direct_probe_def split: outcome.splits)
  then show ?thesis
    by (simp add: get_nodes_with_object_eq get_simple_object_copies_eq search)
qed

theorem C9_count_is_length_of_holders_witness:
  "map (\<lambda>node. head_object env_clean (Head ''w'' ''c'' ''o'' node True)) (NEOFS_NETMAP env_clean)
     = [Returned (PyDict [(''objectID'', ''last'')]), Returned PyNone,
        Raised (RuntimeError ''object not found''), Returned (PyDict [(''objectID'', ''last'')])]
   \<and> snd (get_nodes_with_object env_clean ''w'' ''c'' ''o'' None) = Inr [''s01'', ''s04'']
   \<and> snd (get_simple_object_copies env_clean ''w'' ''c'' ''o'') = Inr 2"
proof -
  have h: "\<forall>n\<in>set (NEOFS_NETMAP env_clean). \<forall>r.
      head_object env_clean (Head ''w'' ''c'' ''o'' n True) = Returned r
        \<longrightarrow> truthy r = (\<not> is_None r)"
    by (auto simp: env_clean_def table_env_def)
  have a: "snd (get_nodes_with_object env_clean ''w'' ''c'' ''o'' None) = Inr [''s01'', ''s04'']"
    by (simp add: env_clean_def table_env_def get_nodes_with_object_def nodes_to_search_def)
  from C9_count_is_length_of_holders [OF h, of None]
  obtain holders where "snd (get_nodes_with_object env_clean ''w'' ''c'' ''o'' None) = Inr holders"
    and k: "snd (get_simple_object_copies env_clean ''w'' ''c'' ''o'') = Inr (int (length holders))"
    by blast
  with a have "holders = [''s01'', ''s04'']" by simp
  with k have "snd (get_simple_object_copies env_clean ''w'' ''c'' ''o'') = Inr 2" by simp
  moreover have "map (\<lambda>node. head_object env_clean (Head ''w'' ''c'' ''o'' node True))
      (NEOFS_NETMAP env_clean)
     = [Returned (PyDict [(''objectID'', ''last'')]), Returned PyNone,
        Raised (RuntimeError ''object not found''), Returned (PyDict [(''objectID'', ''last'')])]"
    by (simp add: env_clean_def table_env_def)
  ultimately show ?thesis using a by blast
qed

text \<open>
  A node that answers with an empty header is returned as a holder and is not counted.
\<close>

theorem C9_count_is_length_of_holders_counterexample:
  "head_object env_empty_header (Head ''w'' ''c'' ''o'' ''s01'' True) = Returned (PyDict [])
   \<and> snd (get_simple_object_copies env_empty_header ''w'' ''c'' ''o'') = Inr 0
   \<and> snd (get_nodes_with_object env_empty_header ''w'' ''c'' ''o'' None) = Inr [''s01'']
   \<and> (0::int) \<noteq> int (length [''s01''])"
  by (simp add: env_empty_header_def table_env_def get_simple_object_copies_def
      get_nodes_with_object_def nodes_to_search_def)

section \<open>Skipped nodes\<close>

text \<open>
  Claim C10. For every list \<^verbatim>\<open>skip_nodes\<close>, \<^verbatim>\<open>get_nodes_with_object\<close> probes exactly the
  nodes of \<^verbatim>\<open>NEOFS_NETMAP\<close> that are not in the list, in the order of the map; no probe
  goes to a skipped node, no skipped node is returned, and the result is a subsequence of
  the map with the skipped nodes removed, hence of the map.
\<close>

theorem C10_skip_nodes_excluded:
  "fst (get_nodes_with_object E w c oid (Some skip))
     = map (\<lambda>node. Head w c oid node True) (filter (\<lambda>node. node \<notin> set skip) (NEOFS_NETMAP E))
   \<and> p_endpoint ` set (fst (get_nodes_with_object E w c oid (Some skip))) \<inter> set skip = {}
   \<and> (\<exists>nodes_list.
         snd (get_nodes_with_object E w c oid (Some skip)) = Inr nodes_list
       \<and> nodes_list = filter (holds_copy E w c oid)
           (filter (\<lambda>node. node \<notin> set skip) (NEOFS_NETMAP E))
       \<and> set nodes_list \<inter> set skip = {}
       \<and> subseq nodes_list (filter (\<lambda>node. node \<notin> set skip) (NEOFS_NETMAP E))
       \<and> subseq nodes_list (NEOFS_NETMAP E))"
proof -
  let ?S = "filter (\<lambda>node. node \<notin> set skip) (NEOFS_NETMAP E)"
  have search: "nodes_to_search E (Some skip) = ?S"
    by (simp add: nodes_to_search_def)
  have dp: "direct_probe w c oid = (\<lambda>node. Head w c oid node True)"
    by (rule ext) (simp add: direct_probe_def)
  have a: "fst (get_nodes_with_object E w c oid (Some skip)) = map (\<lambda>node. Head w c oid node True) ?S"
    by (simp add: get_nodes_with_object_eq search dp)
  have b: "p_endpoint ` set (fst (get_nodes_with_object E w c oid (Some skip))) \<inter> set skip = {}"
    unfolding a by auto
  have r: "snd (get_nodes_with_object E w c oid (Some skip)) = Inr (filter (holds_copy E w c oid) ?S)"
    by (simp add: get_nodes_with_object_eq search)
  have d: "set (filter (holds_copy E w c oid) ?S) \<inter> set skip = {}"
    by auto
  have e: "subseq (filter (holds_copy E w c oid) ?S) ?S"
    by (rule subseq_filter_left)
  have "subseq ?S (NEOFS_NETMAP E)"
    by (rule subseq_filter_left)
  with e have f: "subseq (filter (holds_copy E w c oid) ?S) (NEOFS_NETMAP E)"
    by (rule subseq_order.trans)
  from a b r d e f show ?thesis by blast
qed

text \<open>Skipping the first node of the four-node map leaves the fourth as the only holder.\<close>

theorem C10_skip_nodes_excluded_witness:
  "fst (get_nodes_with_object env_clean ''w'' ''c'' ''o'' (Some [''s01'']))
     = [Head ''w'' ''c'' ''o'' ''s02'' True, Head ''w'' ''c'' ''o'' ''s03'' True,
        Head ''w'' ''c'' ''o'' ''s04'' True]
   \<and> snd (get_nodes_with_object env_clean ''w'' ''c'' ''o'' (Some [''s01''])) = Inr [''s04'']"
proof -
  have n: "filter (\<lambda>node. node \<notin> set [''s01'']) (NEOFS_NETMAP env_clean)
             = [''s02'', ''s03'', ''s04'']"
    by (simp add: env_clean_def table_env_def)
  have k: "filter (holds_copy env_clean ''w'' ''c'' ''o'') [''s02'', ''s03'', ''s04''] = [''s04'']"
    by (simp add: env_clean_def table_env_def holds_copy_def direct_probe_def)
  from C10_skip_nodes_excluded [of env_clean "''w''" "''c''" "''o''" "[''s01'']"]
  have a: "fst (get_nodes_with_object env_clean ''w'' ''c'' ''o'' (Some [''s01'']))
     = map (\<lambda>node. Head ''w'' ''c'' ''o'' node True)
         (filter (\<lambda>node. node \<notin> set [''s01'']) (NEOFS_NETMAP env_clean))"
    and b: "snd (get_nodes_with_object env_clean ''w'' ''c'' ''o'' (Some [''s01'']))
     = Inr (filter (holds_copy env_clean ''w'' ''c'' ''o'')
         (filter (\<lambda>node. node \<notin> set [''s01'']) (NEOFS_NETMAP env_clean)))"
    by blast+
  from a have "fst (get_nodes_with_object env_clean ''w'' ''c'' ''o'' (Some [''s01'']))
     = [Head ''w'' ''c'' ''o'' ''s02'' True, Head ''w'' ''c'' ''o'' ''s03'' True,
        Head ''w'' ''c'' ''o'' ''s04'' True]"
    by (simp only: n list.map)
  moreover from b have "snd (get_nodes_with_object env_clean ''w'' ''c'' ''o'' (Some [''s01'']))
     = Inr [''s04'']"
    by (simp only: n k)
  ultimately show ?thesis by blast
qed

section \<open>Session tokens are known to one node\<close>

text \<open>
  The identifier a new token gets lies above every identifier on record, so no node has
  it on record before the creation.
\<close>

lemma fold_max_ge_start: "a \<le> fold max xs (a::nat)"
  by (induction xs arbitrary: a) (auto intro: le_trans [OF max.cobounded2])

lemma fold_max_ge_member: "x \<in> set xs \<Longrightarrow> x \<le> fold max xs (a::nat)"
proof (induction xs arbitrary: a)
  case Nil
  then show ?case by simp
next
  case (Cons y ys)
  show ?case
  proof (cases "x = y")
    case True
    have "y \<le> max y a" by simp
    also have "\<dots> \<le> fold max ys (max y a)" by (rule fold_max_ge_start)
    finally show ?thesis using True by simp
  next
    case False
    with Cons.prems have "x \<in> set ys" by simp
    then show ?thesis using Cons.IH by simp
  qed
qed

lemma fresh_token_id_unrecorded: "\<not> has_record net node (fresh_token_id net)"
proof
  assume "has_record net node (fresh_token_id net)"
  then have "fresh_token_id net \<in> set (map snd (token_records net))"
    by (force simp: has_record_def)
  then have "fresh_token_id net \<le> fold max (map snd (token_records net)) 0"
    by (rule fold_max_ge_member)
  then show False by (simp add: fresh_token_id_def)
qed

text \<open>
  Claim C1. A session token is created against a node \<open>A\<close>. For a valid session, that
  is a request inside the token's validity window with an operation the token
  authorizes, and for both \<^verbatim>\<open>PUT\<close> and \<^verbatim>\<open>DELETE\<close>: the guard allows the operation at
  \<open>A\<close>, and at every other node \<open>B\<close> it denies it with \<^verbatim>\<open>SessionNotFound\<close>. This holds
  for every placement \<open>P\<close> of the containers, so for \<open>A\<close> and for \<open>B\<close> inside and outside
  the placement set of the object's container, and for every state of the token records
  before the creation.
\<close>

theorem C1_session_guard:
  assumes "valid_from (fst (CreateSessionToken net owner A from until ops)) \<le> now"
    and "now \<le> valid_until (fst (CreateSessionToken net owner A from until ops))"
    and "op = PUT \<or> op = DELETE"
    and "op \<in> set (authorized_ops (fst (CreateSessionToken net owner A from until ops)))"
  shows "Authorize (snd (CreateSessionToken net owner A from until ops)\<lparr>placement := P\<rparr>)
           (fst (CreateSessionToken net owner A from until ops)) A op object now = Allow
       \<and> (\<forall>B. B \<noteq> A \<longrightarrow>
            Authorize (snd (CreateSessionToken net owner A from until ops)\<lparr>placement := P\<rparr>)
              (fst (CreateSessionToken net owner A from until ops)) B op object now
            = Deny SessionNotFound)"
proof -
  let ?tok = "fst (CreateSessionToken net owner A from until ops)"
  let ?net = "snd (CreateSessionToken net owner A from until ops)\<lparr>placement := P\<rparr>"
  have id: "token_id ?tok = fresh_token_id net"
    by (simp add: CreateSessionToken_def Let_def)
  have win: "\<not> (now < valid_from ?tok \<or> valid_until ?tok < now)"
    using assms(1,2) by simp
  have at_A: "has_record ?net A (token_id ?tok)"
    by (simp add: CreateSessionToken_def Let_def has_record_def)
  have at_B: "\<not> has_record ?net B (token_id ?tok)" if "B \<noteq> A" for B
  proof -
    have "has_record ?net B (token_id ?tok) = has_record net B (fresh_token_id net)"
      using that by (auto simp: CreateSessionToken_def Let_def has_record_def)
    then show ?thesis by (simp add: fresh_token_id_unrecorded)
  qed
  have "Authorize ?net ?tok A op object now = Allow"
    using win assms(4) at_A by (simp add: Authorize_def)
  moreover have "Authorize ?net ?tok B op object now = Deny SessionNotFound" if "B \<noteq> A" for B
    using win assms(4) at_B [OF that] by (simp add: Authorize_def)
  ultimately show ?thesis by blast
qed


text \<open>
  The scenario of the test: the token is created against \<^verbatim>\<open>A\<close>, the container is placed
  on \<^verbatim>\<open>B\<close>, and \<^verbatim>\<open>C\<close> is a third node. \<^verbatim>\<open>A\<close> allows both operations, \<^verbatim>\<open>B\<close> and \<^verbatim>\<open>C\<close>
  deny them with \<^verbatim>\<open>SessionNotFound\<close>; with the container placed on \<^verbatim>\<open>A\<close> the decisions
  are the same.
\<close>

theorem C1_session_guard_witness:
  "token_id token_for_A = 6
   \<and> \<not> placement_target (net_after\<lparr>placement := placement_on ''B''\<rparr>) some_object ''A''
   \<and> placement_target (net_after\<lparr>placement := placement_on ''B''\<rparr>) some_object ''B''
   \<and> \<not> placement_target (net_after\<lparr>placement := placement_on ''B''\<rparr>) some_object ''C''
   \<and> Authorize (net_after\<lparr>placement := placement_on ''B''\<rparr>) token_for_A ''A'' PUT some_object 15 = Allow
   \<and> Authorize (net_after\<lparr>placement := placement_on ''B''\<rparr>) token_for_A ''A'' DELETE some_object 15 = Allow
   \<and> Authorize (net_after\<lparr>placement := placement_on ''B''\<rparr>) token_for_A ''B'' PUT some_object 15
       = Deny SessionNotFound
   \<and> Authorize (net_after\<lparr>placement := placement_on ''B''\<rparr>) token_for_A ''B'' DELETE some_object 15
       = Deny SessionNotFound
   \<and> Authorize (net_after\<lparr>placement := placement_on ''B''\<rparr>) token_for_A ''C'' PUT some_object 15
       = Deny SessionNotFound
   \<and> Authorize (net_after\<lparr>placement := placement_on ''B''\<rparr>) token_for_A ''C'' DELETE some_object 15
       = Deny SessionNotFound
   \<and> placement_target (net_after\<lparr>placement := placement_on ''A''\<rparr>) some_object ''A''
   \<and> Authorize (net_after\<lparr>placement := placement_on ''A''\<rparr>) token_for_A ''A'' PUT some_object 15 = Allow
   \<and> Authorize (net_after\<lparr>placement := placement_on ''A''\<rparr>) token_for_A ''B'' PUT some_object 15
       = Deny SessionNotFound"
proof -
  have i: "token_id token_for_A = 6"
    by (simp add: token_for_A_def CreateSessionToken_def Let_def fresh_token_id_def net_before_def)
  have v: "valid_from token_for_A \<le> 15" "15 \<le> valid_until token_for_A"
    by (simp_all add: token_for_A_def CreateSessionToken_def Let_def)
  have p: "PUT \<in> set (authorized_ops token_for_A)" and d: "DELETE \<in> set (authorized_ops token_for_A)"
    by (simp_all add: token_for_A_def CreateSessionToken_def Let_def)
  have pl: "\<not> placement_target (net_after\<lparr>placement := placement_on ''B''\<rparr>) some_object ''A''"
    "placement_target (net_after\<lparr>placement := placement_on ''B''\<rparr>) some_object ''B''"
    "\<not> placement_target (net_after\<lparr>placement := placement_on ''B''\<rparr>) some_object ''C''"
    "placement_target (net_after\<lparr>placement := placement_on ''A''\<rparr>) some_object ''A''"
    by (simp_all add: placement_target_def placement_on_def some_object_def)
  have ne: "''B'' \<noteq> ''A''" "''C'' \<noteq> ''A''"
    by simp_all
  have put_B: "Authorize (net_after\<lparr>placement := placement_on ''B''\<rparr>) token_for_A ''A'' PUT some_object 15 = Allow
       \<and> (\<forall>B. B \<noteq> ''A'' \<longrightarrow>
            Authorize (net_after\<lparr>placement := placement_on ''B''\<rparr>) token_for_A B PUT some_object 15
            = Deny SessionNotFound)"
    unfolding token_for_A_def net_after_def
    by (rule C1_session_guard) (simp_all add: CreateSessionToken_def Let_def)
  have del_B: "Authorize (net_after\<lparr>placement := placement_on ''B''\<rparr>) token_for_A ''A'' DELETE some_object 15 = Allow
       \<and> (\<forall>B. B \<noteq> ''A'' \<longrightarrow>
            Authorize (net_after\<lparr>placement := placement_on ''B''\<rparr>) token_for_A B DELETE some_object 15
            = Deny SessionNotFound)"
    unfolding token_for_A_def net_after_def
    by (rule C1_session_guard) (simp_all add: CreateSessionToken_def Let_def)
  have put_A: "Authorize (net_after\<lparr>placement := placement_on ''A''\<rparr>) token_for_A ''A'' PUT some_object 15 = Allow
       \<and> (\<forall>B. B \<noteq> ''A'' \<longrightarrow>
            Authorize (net_after\<lparr>placement := placement_on ''A''\<rparr>) token_for_A B PUT some_object 15
            = Deny SessionNotFound)"
    unfolding token_for_A_def net_after_def
    by (rule C1_session_guard) (simp_all add: CreateSessionToken_def Let_def)
  note pB = put_B [THEN conjunct2, rule_format, OF ne(1)]
  note pC = put_B [THEN conjunct2, rule_format, OF ne(2)]
  note dB = del_B [THEN conjunct2, rule_format, OF ne(1)]
  note dC = del_B [THEN conjunct2, rule_format, OF ne(2)]
  note pB' = put_A [THEN conjunct2, rule_format, OF ne(1)]
  show ?thesis
    by (intro conjI i pl pB pC dB dC pB' conjunct1 [OF put_B] conjunct1 [OF del_B]
        conjunct1 [OF put_A])
qed

end
